theory Spec2Isabelle
  imports Main "HOL-Library.Word"
begin

unbundle bit_operations_syntax

section \<open>The relay node of UDP\_Aggregator\_GEN.ino\<close>

text \<open>
  The sketch is a single-threaded Arduino program: \<open>setup\<close> runs once, \<open>loop\<close> runs
  again and again. Its globals become the record \<open>node\<close>, passed through every function.
  The WiFi driver, the UDP socket and the power management are libraries outside the
  repository: what the driver answers is a parameter (the record \<open>wifi\<close> and the input of
  one pass, \<open>loop_in\<close>), what the sketch asks of them is returned as a list of
  \<open>event\<close>s in program order. Serial output and \<open>delay\<close>/\<open>yield\<close> are left out.
\<close>

subsection \<open>Constants\<close>

type_synonym byte = "8 word"

definition BS_SSID :: string where "BS_SSID = ''BS_ESP8266''"
definition BS_PASS :: string where "BS_PASS = ''BS_ESP8266''"
definition MOTE2BS_SSID :: string where "MOTE2BS_SSID = ''MOTE2BS_ESP8266''"
definition MOTE2BS_PASS :: string where "MOTE2BS_PASS = ''MOTE2BS_ESP8266''"

definition IP_len :: nat where "IP_len = 4"
definition UDP_PACKET_SIZE :: nat where "UDP_PACKET_SIZE = 9"
definition MSG_SENT_MAX :: int where "MSG_SENT_MAX = 5"
definition UDP_PORT :: "16 word" where "UDP_PORT = 4210"
definition tx_period :: "32 word" where "tx_period = 9000"

subsection \<open>Addresses\<close>

text \<open>
  \<open>IPAddress\<close> holds four octets; \<open>a[i]\<close> reads and \<open>a[i] = v\<close> writes octet \<open>i\<close>,
  and \<open>==\<close> compares all four. The sketch indexes with 0..3 only; the model sends
  any larger index to octet 3.
\<close>

datatype IPAddress = IPAddress byte byte byte byte

fun ip_get :: "IPAddress \<Rightarrow> nat \<Rightarrow> byte" where
  "ip_get (IPAddress a b c d) i =
     (if i = 0 then a else if i = 1 then b else if i = 2 then c else d)"

fun ip_set :: "IPAddress \<Rightarrow> nat \<Rightarrow> byte \<Rightarrow> IPAddress" where
  "ip_set (IPAddress a b c d) i v =
     (if i = 0 then IPAddress v b c d
      else if i = 1 then IPAddress a v c d
      else if i = 2 then IPAddress a b v d
      else IPAddress a b c v)"

text \<open>The four octets in wire order.\<close>

definition octets :: "IPAddress \<Rightarrow> byte list" where
  "octets a = map (ip_get a) [0..<IP_len]"

subsection \<open>State, driver and effects\<close>

record UdpMsg =
  dstIP :: IPAddress
  srcIP :: IPAddress
  payload :: "byte list"

text \<open>
  The globals of the sketch that some statement reads or writes, and the static
  \<open>remote_PORT\<close> of \<open>loop\<close>. (\<open>client_IP\<close>, \<open>txSize\<close>, \<open>txMsg\<close> and the static
  \<open>remote_IP\<close> are declared and never used.) \<open>msg_sent_cnt\<close> is a C \<open>int\<close> that a
  session takes from 0 to at most 5, so it is an \<open>int\<close> here.
\<close>

record node =
  own_IP :: IPAddress
  sub_gateway_IP :: IPAddress
  sup_gateway_IP :: IPAddress
  sub_broadcast_IP :: IPAddress
  sub_network_IP :: IPAddress
  sup_network_IP :: IPAddress
  sendernet_IP :: IPAddress
  dstnet_IP :: IPAddress
  subnetmask_IP :: IPAddress
  rxBuffer :: "byte list"
  rxSize :: int
  txBuffer :: "byte list"
  connectToBS :: bool
  rxMsg :: UdpMsg
  previousMillis :: "32 word"
  msg_sent_cnt :: int
  ap_ssid :: string
  ap_pass :: string
  remote_PORT :: int

text \<open>The globals as the C++ initialisers leave them when a session starts.\<close>

definition node0 :: node where
  "node0 = \<lparr> own_IP = IPAddress 0 0 0 0, sub_gateway_IP = IPAddress 0 0 0 0,
      sup_gateway_IP = IPAddress 0 0 0 0, sub_broadcast_IP = IPAddress 0 0 0 0,
      sub_network_IP = IPAddress 0 0 0 0, sup_network_IP = IPAddress 0 0 0 0,
      sendernet_IP = IPAddress 0 0 0 0, dstnet_IP = IPAddress 0 0 0 0,
      subnetmask_IP = IPAddress 255 255 255 0,
      rxBuffer = replicate UDP_PACKET_SIZE 0, rxSize = 0,
      txBuffer = replicate UDP_PACKET_SIZE 0, connectToBS = False,
      rxMsg = \<lparr> dstIP = IPAddress 0 0 0 0, srcIP = IPAddress 0 0 0 0,
                payload = replicate (UDP_PACKET_SIZE - 2 * IP_len) 0 \<rparr>,
      previousMillis = 0, msg_sent_cnt = 0,
      ap_ssid = ''MOTE_ESP8266'', ap_pass = ''MOTE_ESP8266'', remote_PORT = 0 \<rparr>"

text \<open>
  What the WiFi driver answers during a session: the scan result as (SSID, RSSI) pairs in
  index order, the answer of the k-th \<open>WiFi.status()\<close> poll (is it \<open>WL_CONNECTED\<close>),
  and the addresses \<open>WiFi.localIP()\<close>, \<open>WiFi.gatewayIP()\<close> and \<open>WiFi.softAPIP()\<close>.
  The strength of a scan entry is the signed 8-bit dBm value of the driver's scan record;
  \<open>WiFi.RSSI(i)\<close> widens it to an \<open>int32_t\<close>.
\<close>

record wifi =
  scan :: "(string \<times> 8 word) list"
  wl_connected :: "nat \<Rightarrow> bool"
  localIP :: IPAddress
  gatewayIP :: IPAddress
  softAPIP :: IPAddress

text \<open>\<open>WiFi.SSID(i)\<close> and \<open>WiFi.RSSI(i)\<close>; the library answers an empty name and 0 for an
  index outside the scan result.\<close>

definition SSID :: "wifi \<Rightarrow> nat \<Rightarrow> string" where
  "SSID w i = (if i < length (scan w) then fst (scan w ! i) else [])"

definition RSSI :: "wifi \<Rightarrow> nat \<Rightarrow> int" where
  "RSSI w i = (if i < length (scan w) then sint (snd (scan w ! i)) else 0)"

datatype event =
    WifiDisconnect
  | WifiBegin string string
  | SoftAPConfig IPAddress IPAddress IPAddress
  | SoftAP string string
  | UdpBegin "16 word"
  | UdpSend IPAddress "16 word" "byte list"
  | ActionUponRx
  | DeepSleep

text \<open>\<open>ESP.deepSleep\<close> does not return: the session is over.\<close>

datatype lifecycle = Active | Sleeping

subsection \<open>setup: discovery\<close>

text \<open>
  The two scan loops of \<open>setup\<close> run \<open>i\<close> from \<open>n - 1\<close> down to 0, where \<open>n\<close> is the
  number of networks the scan found (the driver counts them in an \<open>int8_t\<close>, so the
  count fits the \<open>char\<close> the sketch keeps it in). The first loop stops at the first
  base station name it meets.
\<close>

fun find_BS :: "wifi \<Rightarrow> nat \<Rightarrow> bool" where
  "find_BS w 0 = False"
| "find_BS w (Suc i) = (if SSID w i = BS_SSID then True else find_BS w i)"

text \<open>The second keeps \<open>(max_rssi_idx, max_rssi)\<close>.\<close>

fun scan_MOTE2BS :: "wifi \<Rightarrow> nat \<Rightarrow> int \<times> int \<Rightarrow> int \<times> int" where
  "scan_MOTE2BS w 0 acc = acc"
| "scan_MOTE2BS w (Suc i) (max_rssi_idx, max_rssi) =
     scan_MOTE2BS w i
       (if SSID w i = MOTE2BS_SSID
        then (if RSSI w i > max_rssi then (int i, RSSI w i) else (max_rssi_idx, max_rssi))
        else (max_rssi_idx, max_rssi))"

text \<open>
  What \<open>setup\<close> decides from the two loops (lines 116 to 158), as a value: the base
  station, the relay at an index, or nothing.
\<close>

datatype uplink = ConnectAsRootClient | ConnectViaRelay nat | NoUplinkFound

definition discovery :: "wifi \<Rightarrow> uplink" where
  "discovery w =
     (let n = length (scan w) in
      if find_BS w n then ConnectAsRootClient
      else (case scan_MOTE2BS w n (- 1, - 1000) of
              (max_rssi_idx, max_rssi) \<Rightarrow>
                if max_rssi_idx \<ge> 0 then ConnectViaRelay (nat max_rssi_idx)
                else NoUplinkFound))"

subsection \<open>createLink\<close>

text \<open>The wait for the connection has no bound: it returns the number of the poll that
  saw \<open>WL_CONNECTED\<close>, or never returns.\<close>

partial_function (option) await_connected :: "wifi \<Rightarrow> nat \<Rightarrow> nat option" where
  "await_connected w k = (if wl_connected w k then Some k else await_connected w (Suc k))"

definition derive_own_IP :: "IPAddress \<Rightarrow> IPAddress" where
  "derive_own_IP l =
     (let own = l;
          own = ip_set own 2 (ip_get own 2 + ip_get l 3);
          own = ip_set own 3 1
      in own)"

definition createLink :: "wifi \<Rightarrow> bool \<Rightarrow> nat \<Rightarrow> node \<Rightarrow> (node \<times> event list) option" where
  "createLink w toBS network_idx s =
     (let s = s\<lparr>ap_ssid := ''MOTE2BS_ESP8266'', ap_pass := ''MOTE2BS_ESP8266''\<rparr>;
          ev = [WifiDisconnect,
                if toBS then WifiBegin BS_SSID BS_PASS
                else WifiBegin (SSID w network_idx) MOTE2BS_PASS]
      in case await_connected w 0 of
           None \<Rightarrow> None
         | Some k \<Rightarrow>
             (let s = s\<lparr>sup_gateway_IP := gatewayIP w\<rparr>;
                  s = s\<lparr>own_IP := derive_own_IP (localIP w)\<rparr>;
                  s = s\<lparr>sub_gateway_IP := own_IP s\<rparr>
              in Some (s, ev)))"

subsection \<open>setup: the access point\<close>

text \<open>The last loop of \<open>setup\<close> masks both network addresses, octet 3 first.\<close>

definition net_step :: "wifi \<Rightarrow> nat \<Rightarrow> node \<Rightarrow> node" where
  "net_step w i s =
     s\<lparr>sub_network_IP :=
         ip_set (sub_network_IP s) i (ip_get (softAPIP w) i AND ip_get (subnetmask_IP s) i),
       sup_network_IP :=
         ip_set (sup_network_IP s) i (ip_get (localIP w) i AND ip_get (subnetmask_IP s) i)\<rparr>"

definition openAP :: "wifi \<Rightarrow> node \<Rightarrow> node \<times> event list" where
  "openAP w s =
     (let ev = [SoftAPConfig (own_IP s) (sub_gateway_IP s) (subnetmask_IP s),
                SoftAP (ap_ssid s) (ap_pass s), UdpBegin UDP_PORT];
          s = s\<lparr>sub_broadcast_IP := softAPIP w\<rparr>;
          s = s\<lparr>sub_broadcast_IP := ip_set (sub_broadcast_IP s) (IP_len - 1) 255\<rparr>;
          s = fold (net_step w) (rev [0..<IP_len]) s
      in (s, ev))"

text \<open>
  The function \<open>setup\<close> of the sketch, \<open>setup_node\<close> here. It runs once, when a
  session starts, on the globals as their initialisers leave them (\<open>connectToBS\<close> is
  false, so the relay search runs exactly when no base station was met). It gives the
  lifecycle state, the globals and the events, or nothing when \<open>createLink\<close> never
  returns.
\<close>

definition setup_node :: "wifi \<Rightarrow> (lifecycle \<times> node \<times> event list) option" where
  "setup_node w =
     (case discovery w of
        ConnectAsRootClient \<Rightarrow>
          (case createLink w True 0 (node0\<lparr>connectToBS := True\<rparr>) of
             None \<Rightarrow> None
           | Some (s1, ev1) \<Rightarrow>
               (case openAP w s1 of (s2, ev2) \<Rightarrow> Some (Active, s2, ev1 @ ev2)))
      | ConnectViaRelay idx \<Rightarrow>
          (case createLink w False idx (node0\<lparr>connectToBS := False\<rparr>) of
             None \<Rightarrow> None
           | Some (s1, ev1) \<Rightarrow>
               (case openAP w s1 of (s2, ev2) \<Rightarrow> Some (Active, s2, ev1 @ ev2)))
      | NoUplinkFound \<Rightarrow> Some (Sleeping, node0, [DeepSleep]))"

subsection \<open>loop\<close>

text \<open>
  One pass of \<open>loop\<close> sees at most one datagram (its bytes, and the address and port of
  its transport sender) and reads \<open>millis()\<close> up to twice. \<open>UDP.parsePacket()\<close> answers
  the size of the datagram, so an empty one is not processed.
\<close>

record packet =
  data :: "byte list"
  remoteIP :: IPAddress
  remotePort :: "16 word"

record loop_in =
  inbound :: "packet option"
  millis1 :: "32 word"
  millis2 :: "32 word"

text \<open>\<open>UDP.read(buf, len)\<close> copies at most \<open>len\<close> bytes to the front of the buffer and
  answers how many.\<close>

definition UDP_read :: "byte list \<Rightarrow> byte list \<Rightarrow> nat \<Rightarrow> byte list \<times> int" where
  "UDP_read buf d len =
     (let k = min (length d) len in (take k d @ drop k buf, int k))"

definition parseMsg :: "byte list \<Rightarrow> UdpMsg \<Rightarrow> UdpMsg" where
  "parseMsg rxBufferPtr m =
     (let m = fold (\<lambda>i m. m\<lparr>dstIP := ip_set (dstIP m) i (rxBufferPtr ! i),
                              srcIP := ip_set (srcIP m) i (rxBufferPtr ! (i + IP_len))\<rparr>)
                   (rev [0..<IP_len]) m;
          m = fold (\<lambda>i m. m\<lparr>payload := (payload m)[i := rxBufferPtr ! (i + 2 * IP_len)]\<rparr>)
                   [0..<UDP_PACKET_SIZE - 2 * IP_len] m
      in m)"

definition fillBuffer :: "wifi \<Rightarrow> node \<Rightarrow> byte list \<Rightarrow> byte list" where
  "fillBuffer w s txBufferPtr =
     (let b = fold (\<lambda>i b. (b[i := ip_get (sup_gateway_IP s) i])
                             [i + IP_len := ip_get (localIP w) i])
                   (rev [0..<IP_len]) txBufferPtr
      in b[2 * IP_len := 65])"

text \<open>Lines 202 to 251: the inbound datagram.\<close>

definition loop_rx :: "wifi \<Rightarrow> packet option \<Rightarrow> node \<Rightarrow> node \<times> event list" where
  "loop_rx w pk s =
     (case pk of
        None \<Rightarrow> (s, [])
      | Some p \<Rightarrow>
          if length (data p) = 0 then (s, [])
          else
            (case UDP_read (rxBuffer s) (data p) UDP_PACKET_SIZE of
               (buf, n) \<Rightarrow>
                 (let s = s\<lparr>rxBuffer := buf, rxSize := n\<rparr>;
                      s = s\<lparr>rxMsg := parseMsg (rxBuffer s) (rxMsg s)\<rparr>;
                      s = s\<lparr>remote_PORT := uint (remotePort p)\<rparr>;
                      s = s\<lparr>sendernet_IP := remoteIP p\<rparr>;
                      s = s\<lparr>sendernet_IP := ip_set (sendernet_IP s) (IP_len - 1) 0\<rparr>;
                      s = s\<lparr>dstnet_IP := dstIP (rxMsg s)\<rparr>;
                      s = s\<lparr>dstnet_IP := ip_set (dstnet_IP s) (IP_len - 1) 0\<rparr>;
                      out = take (nat (rxSize s)) (rxBuffer s);
                      port = word_of_int (remote_PORT s)
                  in if sendernet_IP s = sub_network_IP s
                     then (s, [UdpSend (sup_gateway_IP s) port out])
                     else if dstIP (rxMsg s) = localIP w
                     then (s, [ActionUponRx])
                     else if dstnet_IP s = sub_network_IP s
                     then (s, [UdpSend (dstIP (rxMsg s)) port out])
                     else (s, [UdpSend (sub_broadcast_IP s) port out]))))"

text \<open>Lines 253 to 276: the telemetry timer. The subtraction is on \<open>unsigned long\<close>.\<close>

definition fires :: "loop_in \<Rightarrow> node \<Rightarrow> bool" where
  "fires inp s \<longleftrightarrow> millis1 inp - previousMillis s \<ge> tx_period"

definition loop_tx :: "wifi \<Rightarrow> loop_in \<Rightarrow> node \<Rightarrow> node \<times> event list" where
  "loop_tx w inp s =
     (if fires inp s
      then (let s = s\<lparr>previousMillis := millis2 inp\<rparr>;
                s = s\<lparr>msg_sent_cnt := msg_sent_cnt s + 1\<rparr>;
                s = s\<lparr>txBuffer := fillBuffer w s (txBuffer s)\<rparr>
            in (s, [UdpSend (sup_gateway_IP s) UDP_PORT (take UDP_PACKET_SIZE (txBuffer s))]))
      else (s, []))"

text \<open>Lines 278 to 283: the end of the session.\<close>

definition loop_sleep :: "node \<Rightarrow> lifecycle \<times> event list" where
  "loop_sleep s =
     (if msg_sent_cnt s = MSG_SENT_MAX then (Sleeping, [DeepSleep]) else (Active, []))"

definition loop :: "wifi \<Rightarrow> loop_in \<Rightarrow> node \<Rightarrow> lifecycle \<times> node \<times> event list" where
  "loop w inp s =
     (case loop_rx w (inbound inp) s of
        (s1, ev1) \<Rightarrow>
          (case loop_tx w inp s1 of
             (s2, ev2) \<Rightarrow>
               (case loop_sleep s2 of
                  (st, ev3) \<Rightarrow> (st, s2, ev1 @ ev2 @ ev3))))"

subsection \<open>A session\<close>

text \<open>
  The passes of \<open>loop\<close> over the inputs of a session, until the node sleeps. Each pass is
  listed with whether its timer condition held on entry, the lifecycle state it ends in,
  the globals it leaves and its events.
\<close>

fun session :: "wifi \<Rightarrow> loop_in list \<Rightarrow> node \<Rightarrow> (bool \<times> lifecycle \<times> node \<times> event list) list" where
  "session w [] s = []"
| "session w (inp # rest) s =
     (case loop w inp s of
        (st, s', ev) \<Rightarrow>
          (fires inp s, st, s', ev) #
          (case st of Sleeping \<Rightarrow> [] | Active \<Rightarrow> session w rest s'))"

text \<open>The number of passes of a session prefix whose timer fired.\<close>

definition firings :: "(bool \<times> lifecycle \<times> node \<times> event list) list \<Rightarrow> nat" where
  "firings ps = length (filter fst ps)"

text \<open>
  What every state of a session satisfies: the buffers have their declared sizes, the
  downstream network address has host octet 0 (it was masked with 255.255.255.0), and
  the broadcast address is that address with host octet 255.
\<close>

definition node_ok :: "node \<Rightarrow> bool" where
  "node_ok s \<longleftrightarrow>
     length (rxBuffer s) = UDP_PACKET_SIZE \<and>
     length (txBuffer s) = UDP_PACKET_SIZE \<and>
     length (payload (rxMsg s)) = UDP_PACKET_SIZE - 2 * IP_len \<and>
     ip_get (sub_network_IP s) (IP_len - 1) = 0 \<and>
     sub_broadcast_IP s = ip_set (sub_network_IP s) (IP_len - 1) 255"

subsection \<open>The specification's vocabulary\<close>

text \<open>The subnet prefix of the data model: octets 0..2. Two addresses share a subnet
  when their prefixes are equal.\<close>

fun prefix_of :: "IPAddress \<Rightarrow> byte \<times> byte \<times> byte" where
  "prefix_of (IPAddress a b c d) = (a, b, c)"

text \<open>The wire layout: bytes 0..3 are the destination address.\<close>

definition embedded_dst :: "byte list \<Rightarrow> IPAddress" where
  "embedded_dst bs = IPAddress (bs ! 0) (bs ! 1) (bs ! 2) (bs ! 3)"

text \<open>
  The classification as the specification words it, in its priority order, for a node
  that calls \<open>ownAddress\<close> its own and whose downstream network address is
  \<open>downstream\<close>.
\<close>

datatype fwd_case = CaseA | CaseB | CaseC | CaseD

definition spec_classify :: "IPAddress \<Rightarrow> IPAddress \<Rightarrow> packet \<Rightarrow> fwd_case" where
  "spec_classify ownAddress downstream p =
     (if prefix_of (remoteIP p) = prefix_of downstream then CaseA
      else if embedded_dst (data p) = ownAddress then CaseB
      else if prefix_of (embedded_dst (data p)) = prefix_of downstream then CaseC
      else CaseD)"

text \<open>
  Discovery in the specification's words. The base station is visible when some entry
  of the scan carries its name. The relay chosen at index \<open>k\<close> carries the relay name,
  no relay entry is stronger, and every relay entry met before it (a higher index) is
  strictly weaker.
\<close>

definition root_visible :: "wifi \<Rightarrow> bool" where
  "root_visible w \<longleftrightarrow> (\<exists>i<length (scan w). fst (scan w ! i) = BS_SSID)"

definition best_relay :: "wifi \<Rightarrow> nat \<Rightarrow> bool" where
  "best_relay w k \<longleftrightarrow>
     k < length (scan w) \<and> fst (scan w ! k) = MOTE2BS_SSID \<and>
     (\<forall>j<length (scan w). fst (scan w ! j) = MOTE2BS_SSID \<longrightarrow>
        sint (snd (scan w ! j)) \<le> sint (snd (scan w ! k)) \<and>
        (k < j \<longrightarrow> sint (snd (scan w ! j)) < sint (snd (scan w ! k))))"

text \<open>The outbound packets among the events of a pass.\<close>

fun is_send :: "event \<Rightarrow> bool" where
  "is_send (UdpSend a p bs) = True"
| "is_send e = False"

definition outbound :: "event list \<Rightarrow> event list" where
  "outbound ev = filter is_send ev"

text \<open>
  Modelled from the spec: the encoder of the wire packet. The sketch has a decoder
  (\<open>parseMsg\<close>) and no encoder of a parsed message: it forwards the received bytes, and
  the lines of \<open>fillBuffer\<close> that would write a message's fields are commented out. The
  layout is the specification's: bytes 0..3 the destination, 4..7 the source, the payload
  from byte 8.
\<close>

definition encode :: "UdpMsg \<Rightarrow> byte list" where
  "encode m = octets (dstIP m) @ octets (srcIP m) @ payload m"

subsection \<open>A concrete node\<close>

text \<open>
  A node that sees the base station, is given 192.168.4.2 by it, and opens the subnet
  192.168.6.0/24: \<open>ex_node\<close> is what \<open>setup\<close> leaves.
\<close>

definition ex_wifi :: wifi where
  "ex_wifi = \<lparr> scan = [(''BS_ESP8266'', - 48)], wl_connected = (\<lambda>k. 2 \<le> k),
       localIP = IPAddress 192 168 4 2, gatewayIP = IPAddress 192 168 4 1,
       softAPIP = IPAddress 192 168 6 1 \<rparr>"

definition ex_node :: node where
  "ex_node = node0\<lparr> own_IP := IPAddress 192 168 6 1, sub_gateway_IP := IPAddress 192 168 6 1,
       sup_gateway_IP := IPAddress 192 168 4 1, sub_broadcast_IP := IPAddress 192 168 6 255,
       sub_network_IP := IPAddress 192 168 6 0, sup_network_IP := IPAddress 192 168 4 0,
       connectToBS := True, ap_ssid := ''MOTE2BS_ESP8266'', ap_pass := ''MOTE2BS_ESP8266'' \<rparr>"

text \<open>Datagrams: from a child, to the node's uplink address, to the node's derived
  address, to a child, and to an unknown subnet.\<close>

definition pkt_child :: packet where
  "pkt_child = \<lparr> data = [10, 0, 0, 9, 192, 168, 6, 7, 65],
       remoteIP = IPAddress 192 168 6 7, remotePort = 4210 \<rparr>"

definition pkt_local :: packet where
  "pkt_local = \<lparr> data = [192, 168, 4, 2, 192, 168, 4, 1, 66],
       remoteIP = IPAddress 192 168 4 1, remotePort = 4210 \<rparr>"

definition pkt_own :: packet where
  "pkt_own = \<lparr> data = [192, 168, 6, 1, 192, 168, 4, 1, 66],
       remoteIP = IPAddress 192 168 4 1, remotePort = 4210 \<rparr>"

definition pkt_down :: packet where
  "pkt_down = \<lparr> data = [192, 168, 6, 9, 192, 168, 4, 1, 66],
       remoteIP = IPAddress 192 168 4 1, remotePort = 4210 \<rparr>"

definition pkt_other :: packet where
  "pkt_other = \<lparr> data = [172, 16, 0, 4, 192, 168, 4, 1, 66],
       remoteIP = IPAddress 192 168 4 1, remotePort = 4210 \<rparr>"

text \<open>A datagram of 12 bytes for a child.\<close>

definition pkt_long :: packet where
  "pkt_long = \<lparr> data = [192, 168, 6, 9, 192, 168, 4, 1, 66, 67, 68, 69],
       remoteIP = IPAddress 192 168 4 1, remotePort = 4210 \<rparr>"

text \<open>A pass with no datagram whose timer fires.\<close>

definition in_fire :: loop_in where
  "in_fire = \<lparr> inbound = None, millis1 = 9000, millis2 = 9001 \<rparr>"

text \<open>A scan with three relays, the two strongest equal, and a scan with neither a base
  station nor a relay.\<close>

definition relay_wifi :: wifi where
  "relay_wifi = \<lparr> scan = [(''MOTE2BS_ESP8266'', - 70), (''MOTE_ESP8266'', - 20),
                         (''MOTE2BS_ESP8266'', - 60), (''MOTE2BS_ESP8266'', - 60)],
       wl_connected = (\<lambda>k. True),
       localIP = IPAddress 192 168 6 2, gatewayIP = IPAddress 192 168 6 1,
       softAPIP = IPAddress 192 168 8 1 \<rparr>"

definition quiet_wifi :: wifi where
  "quiet_wifi = \<lparr> scan = [(''MOTE_ESP8266'', - 40), (''cafe'', - 71)],
       wl_connected = (\<lambda>k. True),
       localIP = IPAddress 0 0 0 0, gatewayIP = IPAddress 0 0 0 0,
       softAPIP = IPAddress 192 168 4 1 \<rparr>"

text \<open>Passes with no datagram at the given clock values: the timer fires on all of them
  but the second.\<close>

definition tick :: "32 word \<Rightarrow> loop_in" where
  "tick t = \<lparr> inbound = None, millis1 = t, millis2 = t \<rparr>"

definition ex_ins :: "loop_in list" where
  "ex_ins = map tick [9000, 9500, 18000, 27000, 36000, 45000, 54000]"

section \<open>Properties\<close>

lemmas consts_defs =
  BS_SSID_def BS_PASS_def MOTE2BS_SSID_def MOTE2BS_PASS_def
  IP_len_def UDP_PACKET_SIZE_def MSG_SENT_MAX_def UDP_PORT_def tx_period_def

subsection \<open>Indices and addresses\<close>

lemma IP_idx: "[0..<IP_len] = [0, 1, 2, 3]"
  by (simp add: IP_len_def eval_nat_numeral)

lemma payload_idx: "[0..<UDP_PACKET_SIZE - 2 * IP_len] = [0]"
  by (simp add: consts_defs)

lemma octets_IPAddress: "octets (IPAddress a b c d) = [a, b, c, d]"
  by (simp add: octets_def IP_idx)

lemma length9:
  "length (bs :: 'a list) = 9 \<Longrightarrow>
     \<exists>b0 b1 b2 b3 b4 b5 b6 b7 b8. bs = [b0, b1, b2, b3, b4, b5, b6, b7, b8]"
  by (auto simp: length_Suc_conv eval_nat_numeral)

lemma IP_last: "IP_len - 1 = 3" "IP_len - Suc 0 = 3"
  by (simp_all add: IP_len_def)

lemma host_zero_eq:
  "ip_get n 3 = 0 \<Longrightarrow> (ip_set a 3 0 = n) = (prefix_of a = prefix_of n)"
  by (cases a; cases n) auto

subsection \<open>parseMsg\<close>

lemma parseMsg9:
  assumes "length (payload m) = UDP_PACKET_SIZE - 2 * IP_len"
  shows "parseMsg [b0, b1, b2, b3, b4, b5, b6, b7, b8] m =
     \<lparr> dstIP = IPAddress b0 b1 b2 b3, srcIP = IPAddress b4 b5 b6 b7, payload = [b8] \<rparr>"
proof -
  obtain p where p: "payload m = [p]" using assms
    by (cases "payload m") (auto simp: consts_defs)
  show ?thesis
    by (cases m; cases "dstIP m"; cases "srcIP m")
       (use p in \<open>simp add: parseMsg_def IP_idx payload_idx, simp add: IP_len_def\<close>)
qed

lemma parseMsg_payload_length: "length (payload (parseMsg buf m)) = length (payload m)"
proof -
  have a: "payload (fold (\<lambda>i m. m\<lparr>dstIP := ip_set (dstIP m) i (buf ! i),
                              srcIP := ip_set (srcIP m) i (buf ! (i + IP_len))\<rparr>) is m) = payload m"
    for "is" and m :: UdpMsg
    by (induction "is" arbitrary: m) simp_all
  show ?thesis
    by (simp add: parseMsg_def payload_idx a)
qed

subsection \<open>The inbound part of a pass on a 9-byte datagram\<close>

lemma loop_rx_9:
  assumes ok: "node_ok s" and len: "length (data p) = UDP_PACKET_SIZE"
  shows "snd (loop_rx w (Some p) s) =
     (if prefix_of (remoteIP p) = prefix_of (sub_network_IP s)
      then [UdpSend (sup_gateway_IP s) (remotePort p) (data p)]
      else if embedded_dst (data p) = localIP w then [ActionUponRx]
      else if prefix_of (embedded_dst (data p)) = prefix_of (sub_network_IP s)
      then [UdpSend (embedded_dst (data p)) (remotePort p) (data p)]
      else [UdpSend (sub_broadcast_IP s) (remotePort p) (data p)])"
proof -
  obtain b0 b1 b2 b3 b4 b5 b6 b7 b8 where b: "data p = [b0, b1, b2, b3, b4, b5, b6, b7, b8]"
    using length9 len unfolding UDP_PACKET_SIZE_def by blast
  have rd: "UDP_read (rxBuffer s) [b0, b1, b2, b3, b4, b5, b6, b7, b8] UDP_PACKET_SIZE
      = ([b0, b1, b2, b3, b4, b5, b6, b7, b8], 9)"
    using ok by (simp add: UDP_read_def node_ok_def UDP_PACKET_SIZE_def)
  have pl: "length (payload (rxMsg s)) = UDP_PACKET_SIZE - 2 * IP_len"
    using ok by (simp add: node_ok_def)
  have z: "ip_get (sub_network_IP s) 3 = 0"
    using ok by (simp add: node_ok_def IP_last)
  have h1: "(ip_set (remoteIP p) 3 0 = sub_network_IP s)
      = (prefix_of (remoteIP p) = prefix_of (sub_network_IP s))"
    by (rule host_zero_eq [OF z])
  have h2: "(IPAddress b0 b1 b2 0 = sub_network_IP s)
      = ((b0, b1, b2) = prefix_of (sub_network_IP s))"
    using host_zero_eq [OF z, of "IPAddress b0 b1 b2 b3"] by simp
  show ?thesis
    by (simp add: loop_rx_def b rd parseMsg9 [OF pl] Let_def IP_last h1 h2 embedded_dst_def)
qed

subsection \<open>The scan loops\<close>

lemma find_BS_iff: "find_BS w n \<longleftrightarrow> (\<exists>i<n. SSID w i = BS_SSID)"
  by (induction n) (auto simp: less_Suc_eq)

lemma scan_MOTE2BS_result:
  "scan_MOTE2BS w n (idx, mx) = (idx', mx') \<Longrightarrow>
     (idx' = idx \<and> mx' = mx \<and> (\<forall>j<n. SSID w j = MOTE2BS_SSID \<longrightarrow> RSSI w j \<le> mx))
   \<or> (0 \<le> idx' \<and> nat idx' < n \<and> SSID w (nat idx') = MOTE2BS_SSID
        \<and> RSSI w (nat idx') = mx' \<and> mx < mx'
        \<and> (\<forall>j<n. SSID w j = MOTE2BS_SSID \<longrightarrow>
               RSSI w j \<le> mx' \<and> (nat idx' < j \<longrightarrow> RSSI w j < mx')))"
proof (induction n arbitrary: idx mx)
  case 0
  then show ?case by simp
next
  case (Suc n)
  show ?case
  proof (cases "SSID w n = MOTE2BS_SSID \<and> RSSI w n > mx")
    case True
    with Suc.prems have "scan_MOTE2BS w n (int n, RSSI w n) = (idx', mx')" by simp
    from Suc.IH [OF this] True show ?thesis
      by (elim disjE) (auto simp: less_Suc_eq)
  next
    case False
    then have "(if SSID w n = MOTE2BS_SSID
        then if RSSI w n > mx then (int n, RSSI w n) else (idx, mx)
        else (idx, mx)) = (idx, mx)" by auto
    with Suc.prems have "scan_MOTE2BS w n (idx, mx) = (idx', mx')" by simp
    from Suc.IH [OF this] False show ?thesis
      by (elim disjE) (auto simp: less_Suc_eq)
  qed
qed

lemma discovery_root: "discovery w = ConnectAsRootClient \<longleftrightarrow> root_visible w"
  by (auto simp: discovery_def find_BS_iff root_visible_def SSID_def Let_def split: prod.splits)

lemma RSSI_lower: "- 128 \<le> RSSI w j"
  using sint_ge [of "snd (scan w ! j)"] by (simp add: RSSI_def)

lemma discovery_relay:
  assumes "\<not> root_visible w"
  shows "discovery w = ConnectViaRelay k \<longleftrightarrow> best_relay w k"
proof -
  let ?n = "length (scan w)"
  obtain idx' mx' where r: "scan_MOTE2BS w ?n (- 1, - 1000) = (idx', mx')"
    by (cases "scan_MOTE2BS w ?n (- 1, - 1000)")
  have nb: "\<not> find_BS w ?n"
    using assms by (auto simp: find_BS_iff root_visible_def SSID_def)
  have d: "discovery w = (if idx' \<ge> 0 then ConnectViaRelay (nat idx') else NoUplinkFound)"
    by (simp add: discovery_def nb r)
  from scan_MOTE2BS_result [OF r]
  consider (none) "idx' = - 1" "\<forall>j<?n. SSID w j = MOTE2BS_SSID \<longrightarrow> RSSI w j \<le> - 1000"
    | (some) "0 \<le> idx'" "best_relay w (nat idx')"
    by (auto simp: best_relay_def SSID_def RSSI_def)
  then show ?thesis
  proof cases
    case none
    have "SSID w j \<noteq> MOTE2BS_SSID" if "j < ?n" for j
      using none(2) that RSSI_lower [of w j] by fastforce
    then have "\<not> best_relay w k"
      by (auto simp: best_relay_def SSID_def)
    with none d show ?thesis by simp
  next
    case some
    have "k = nat idx'" if "best_relay w k"
      using that some(2) unfolding best_relay_def
      by (metis linorder_neqE_nat not_less)
    with some d show ?thesis by auto
  qed
qed

lemma discovery_none:
  "discovery w = NoUplinkFound \<longleftrightarrow>
     \<not> root_visible w \<and> (\<forall>j<length (scan w). fst (scan w ! j) \<noteq> MOTE2BS_SSID)"
proof (cases "root_visible w")
  case True
  then show ?thesis using discovery_root [of w] by simp
next
  case False
  let ?n = "length (scan w)"
  obtain idx' mx' where r: "scan_MOTE2BS w ?n (- 1, - 1000) = (idx', mx')"
    by (cases "scan_MOTE2BS w ?n (- 1, - 1000)")
  have nb: "\<not> find_BS w ?n"
    using False by (auto simp: find_BS_iff root_visible_def SSID_def)
  have d: "discovery w = (if idx' \<ge> 0 then ConnectViaRelay (nat idx') else NoUplinkFound)"
    by (simp add: discovery_def nb r)
  from scan_MOTE2BS_result [OF r]
  consider (none) "idx' = - 1" "\<forall>j<?n. SSID w j = MOTE2BS_SSID \<longrightarrow> RSSI w j \<le> - 1000"
    | (some) "0 \<le> idx'" "nat idx' < ?n" "SSID w (nat idx') = MOTE2BS_SSID"
    by auto
  then show ?thesis
  proof cases
    case none
    have "SSID w j \<noteq> MOTE2BS_SSID" if "j < ?n" for j
      using none(2) that RSSI_lower [of w j] by fastforce
    with none(1) d False show ?thesis by (auto simp: SSID_def)
  next
    case some
    with d False show ?thesis by (auto simp: SSID_def)
  qed
qed

subsection \<open>setup\<close>

lemma and_255: "(x :: byte) AND 255 = x"
proof -
  have "(255 :: byte) = - 1" by simp
  then show ?thesis by (simp only: and.right_neutral bit.conj_one_right)
qed

lemma openAP_state:
  "fst (openAP w s) = s\<lparr>sub_broadcast_IP := ip_set (softAPIP w) 3 255,
      sub_network_IP := IPAddress (ip_get (softAPIP w) 0 AND ip_get (subnetmask_IP s) 0)
         (ip_get (softAPIP w) 1 AND ip_get (subnetmask_IP s) 1)
         (ip_get (softAPIP w) 2 AND ip_get (subnetmask_IP s) 2)
         (ip_get (softAPIP w) 3 AND ip_get (subnetmask_IP s) 3),
      sup_network_IP := IPAddress (ip_get (localIP w) 0 AND ip_get (subnetmask_IP s) 0)
         (ip_get (localIP w) 1 AND ip_get (subnetmask_IP s) 1)
         (ip_get (localIP w) 2 AND ip_get (subnetmask_IP s) 2)
         (ip_get (localIP w) 3 AND ip_get (subnetmask_IP s) 3)\<rparr>"
  by (cases "sub_network_IP s"; cases "sup_network_IP s")
     (simp add: openAP_def IP_idx net_step_def Let_def IP_last)

lemma openAP_events:
  "snd (openAP w s) = [SoftAPConfig (own_IP s) (sub_gateway_IP s) (subnetmask_IP s),
                       SoftAP (ap_ssid s) (ap_pass s), UdpBegin UDP_PORT]"
  by (simp add: openAP_def Let_def)

lemma createLink_Some:
  assumes "createLink w toBS idx s = Some (s', ev)"
  shows "s' = s\<lparr>ap_ssid := ''MOTE2BS_ESP8266'', ap_pass := ''MOTE2BS_ESP8266'',
               sup_gateway_IP := gatewayIP w, own_IP := derive_own_IP (localIP w),
               sub_gateway_IP := derive_own_IP (localIP w)\<rparr>"
    and "ev = [WifiDisconnect, if toBS then WifiBegin BS_SSID BS_PASS
                               else WifiBegin (SSID w idx) MOTE2BS_PASS]"
  using assms by (auto simp: createLink_def Let_def split: option.splits)

lemma setup_node_Active:
  assumes "setup_node w = Some (Active, s, ev)"
  shows "\<exists>toBS idx s1 ev1. createLink w toBS idx (node0\<lparr>connectToBS := toBS\<rparr>) = Some (s1, ev1)
           \<and> s = fst (openAP w s1) \<and> ev = ev1 @ snd (openAP w s1)"
  using assms unfolding setup_node_def
  by (auto split: uplink.splits option.splits prod.splits) fastforce+

lemma derive_own_IP_differs: "derive_own_IP l \<noteq> l"
  by (cases l) (auto simp: derive_own_IP_def)

lemma await_connected_returns:
  "wl_connected w (j + k) \<Longrightarrow> \<exists>m. await_connected w j = Some m"
proof (induction k arbitrary: j)
  case 0
  then show ?case by (subst await_connected.simps) simp
next
  case (Suc k)
  then have "\<exists>m. await_connected w (Suc j) = Some m" by simp
  then show ?case by (subst await_connected.simps) simp
qed

lemma setup_node_returns:
  assumes "wl_connected w k"
  shows "\<exists>r. setup_node w = Some r"
proof -
  obtain m where "await_connected w 0 = Some m"
    using await_connected_returns [of w 0 k] assms by auto
  then show ?thesis
    by (simp add: setup_node_def createLink_def Let_def
             split: uplink.splits prod.splits)
qed

lemma derive_own_IP_octets:
  "derive_own_IP (IPAddress a b c d) = IPAddress a b (c + d) 1"
  by (simp add: derive_own_IP_def)

lemma setup_node_ok:
  assumes "setup_node w = Some (Active, s, ev)"
  shows "node_ok s"
proof -
  obtain toBS idx s1 ev1 where
    c: "createLink w toBS idx (node0\<lparr>connectToBS := toBS\<rparr>) = Some (s1, ev1)"
    and s: "s = fst (openAP w s1)"
    using setup_node_Active [OF assms] by blast
  obtain a b c' d where ap: "softAPIP w = IPAddress a b c' d"
    by (cases "softAPIP w")
  show ?thesis
    unfolding s openAP_state createLink_Some(1) [OF c]
    by (simp add: node_ok_def node0_def ap IP_last and_255)
qed

lemma await_ex: "await_connected ex_wifi 0 = Some 2"
  by (simp add: await_connected.simps ex_wifi_def)

lemma setup_ex: "setup_node ex_wifi = Some (Active, ex_node,
   [WifiDisconnect, WifiBegin BS_SSID BS_PASS,
    SoftAPConfig (IPAddress 192 168 6 1) (IPAddress 192 168 6 1) (IPAddress 255 255 255 0),
    SoftAP ''MOTE2BS_ESP8266'' ''MOTE2BS_ESP8266'', UdpBegin UDP_PORT])"
proof -
  have d: "discovery ex_wifi = ConnectAsRootClient"
    by (simp add: discovery_def ex_wifi_def SSID_def BS_SSID_def)
  have c: "createLink ex_wifi True 0 (node0\<lparr>connectToBS := True\<rparr>) =
      Some (node0\<lparr>connectToBS := True, ap_ssid := ''MOTE2BS_ESP8266'',
                  ap_pass := ''MOTE2BS_ESP8266'', sup_gateway_IP := IPAddress 192 168 4 1,
                  own_IP := IPAddress 192 168 6 1, sub_gateway_IP := IPAddress 192 168 6 1\<rparr>,
            [WifiDisconnect, WifiBegin BS_SSID BS_PASS])"
    by (simp add: createLink_def await_ex Let_def)
       (simp add: ex_wifi_def derive_own_IP_def)
  have o: "openAP ex_wifi (node0\<lparr>connectToBS := True, ap_ssid := ''MOTE2BS_ESP8266'',
                  ap_pass := ''MOTE2BS_ESP8266'', sup_gateway_IP := IPAddress 192 168 4 1,
                  own_IP := IPAddress 192 168 6 1, sub_gateway_IP := IPAddress 192 168 6 1\<rparr>) =
      (ex_node,
       [SoftAPConfig (IPAddress 192 168 6 1) (IPAddress 192 168 6 1) (IPAddress 255 255 255 0),
        SoftAP ''MOTE2BS_ESP8266'' ''MOTE2BS_ESP8266'', UdpBegin UDP_PORT])"
  proof (rule prod_eqI)
    show "fst (openAP ex_wifi (node0\<lparr>connectToBS := True, ap_ssid := ''MOTE2BS_ESP8266'',
                  ap_pass := ''MOTE2BS_ESP8266'', sup_gateway_IP := IPAddress 192 168 4 1,
                  own_IP := IPAddress 192 168 6 1, sub_gateway_IP := IPAddress 192 168 6 1\<rparr>)) =
      fst (ex_node,
       [SoftAPConfig (IPAddress 192 168 6 1) (IPAddress 192 168 6 1) (IPAddress 255 255 255 0),
        SoftAP ''MOTE2BS_ESP8266'' ''MOTE2BS_ESP8266'', UdpBegin UDP_PORT])"
      by (simp add: openAP_state ex_node_def ex_wifi_def node0_def)
    show "snd (openAP ex_wifi (node0\<lparr>connectToBS := True, ap_ssid := ''MOTE2BS_ESP8266'',
                  ap_pass := ''MOTE2BS_ESP8266'', sup_gateway_IP := IPAddress 192 168 4 1,
                  own_IP := IPAddress 192 168 6 1, sub_gateway_IP := IPAddress 192 168 6 1\<rparr>)) =
      snd (ex_node,
       [SoftAPConfig (IPAddress 192 168 6 1) (IPAddress 192 168 6 1) (IPAddress 255 255 255 0),
        SoftAP ''MOTE2BS_ESP8266'' ''MOTE2BS_ESP8266'', UdpBegin UDP_PORT])"
      by (simp add: openAP_events node0_def)
  qed
  show ?thesis
    unfolding setup_node_def d by (simp add: c o)
qed

subsection \<open>One pass\<close>

lemma loop_rx_frame:
  "fst (loop_rx w pk s) = s\<lparr>rxBuffer := rxBuffer (fst (loop_rx w pk s)),
      rxSize := rxSize (fst (loop_rx w pk s)), rxMsg := rxMsg (fst (loop_rx w pk s)),
      remote_PORT := remote_PORT (fst (loop_rx w pk s)),
      sendernet_IP := sendernet_IP (fst (loop_rx w pk s)),
      dstnet_IP := dstnet_IP (fst (loop_rx w pk s))\<rparr>"
  by (simp add: loop_rx_def Let_def split: option.splits prod.splits)

lemma loop_tx_frame:
  "fst (loop_tx w inp s) = s\<lparr>previousMillis := previousMillis (fst (loop_tx w inp s)),
      msg_sent_cnt := msg_sent_cnt (fst (loop_tx w inp s)),
      txBuffer := txBuffer (fst (loop_tx w inp s))\<rparr>"
  by (simp add: loop_tx_def Let_def)

lemma loop_parts:
  "loop w inp s =
     (fst (loop_sleep (fst (loop_tx w inp (fst (loop_rx w (inbound inp) s))))),
      fst (loop_tx w inp (fst (loop_rx w (inbound inp) s))),
      snd (loop_rx w (inbound inp) s) @ snd (loop_tx w inp (fst (loop_rx w (inbound inp) s)))
        @ snd (loop_sleep (fst (loop_tx w inp (fst (loop_rx w (inbound inp) s))))))"
  by (simp add: loop_def split: prod.splits)

lemma loop_rx_keeps:
  "previousMillis (fst (loop_rx w pk s)) = previousMillis s"
  "msg_sent_cnt (fst (loop_rx w pk s)) = msg_sent_cnt s"
  "txBuffer (fst (loop_rx w pk s)) = txBuffer s"
  "sup_gateway_IP (fst (loop_rx w pk s)) = sup_gateway_IP s"
  by (subst loop_rx_frame, simp)+

lemma fires_after_rx: "fires inp (fst (loop_rx w pk s)) = fires inp s"
  by (simp add: fires_def loop_rx_keeps)

lemma loop_rx_no_sleep: "DeepSleep \<notin> set (snd (loop_rx w pk s))"
  by (simp add: loop_rx_def Let_def split: option.splits prod.splits)

lemma loop_tx_no_sleep: "DeepSleep \<notin> set (snd (loop_tx w inp s))"
  by (simp add: loop_tx_def Let_def)

lemma loop_tx_cnt:
  "msg_sent_cnt (fst (loop_tx w inp s)) = msg_sent_cnt s + (if fires inp s then 1 else 0)"
  by (simp add: loop_tx_def Let_def)

lemma loop_counter:
  assumes "loop w inp s = (st, s', ev)"
  shows "msg_sent_cnt s' = msg_sent_cnt s + (if fires inp s then 1 else 0)"
    and "st = Sleeping \<longleftrightarrow> msg_sent_cnt s' = MSG_SENT_MAX"
    and "DeepSleep \<in> set ev \<longleftrightarrow> st = Sleeping"
proof -
  let ?r = "fst (loop_rx w (inbound inp) s)"
  have s': "s' = fst (loop_tx w inp ?r)" and st: "st = fst (loop_sleep s')"
    and ev: "ev = snd (loop_rx w (inbound inp) s) @ snd (loop_tx w inp ?r) @ snd (loop_sleep s')"
    using assms by (auto simp: loop_parts)
  show "msg_sent_cnt s' = msg_sent_cnt s + (if fires inp s then 1 else 0)"
    unfolding s' loop_tx_cnt by (simp add: fires_after_rx loop_rx_keeps)
  show "st = Sleeping \<longleftrightarrow> msg_sent_cnt s' = MSG_SENT_MAX"
    unfolding st by (simp add: loop_sleep_def)
  show "DeepSleep \<in> set ev \<longleftrightarrow> st = Sleeping"
    unfolding ev st using loop_rx_no_sleep [of w "inbound inp" s] loop_tx_no_sleep [of w inp ?r]
    by (simp add: loop_sleep_def)
qed

lemma fillBuffer_length: "length (fillBuffer w s buf) = length buf"
proof -
  have "length (fold (\<lambda>i b. (b[i := ip_get (sup_gateway_IP s) i])
                             [i + IP_len := ip_get (localIP w) i]) is b) = length b"
    for "is" and b :: "byte list"
    by (induction "is" arbitrary: b) simp_all
  then show ?thesis by (simp add: fillBuffer_def Let_def)
qed

lemma loop_rx_sizes:
  assumes "length (rxBuffer s) = UDP_PACKET_SIZE"
  shows "length (rxBuffer (fst (loop_rx w pk s))) = UDP_PACKET_SIZE"
    and "length (payload (rxMsg (fst (loop_rx w pk s)))) = length (payload (rxMsg s))"
  using assms
  by (auto simp: loop_rx_def Let_def UDP_read_def parseMsg_payload_length
           split: option.splits prod.splits)

lemma loop_tx_sizes: "length (txBuffer (fst (loop_tx w inp s))) = length (txBuffer s)"
  by (simp add: loop_tx_def Let_def fillBuffer_length)

lemma fillBuffer_9:
  assumes "length buf = UDP_PACKET_SIZE"
  shows "fillBuffer w s buf = octets (sup_gateway_IP s) @ octets (localIP w) @ [65]"
proof -
  obtain b0 b1 b2 b3 b4 b5 b6 b7 b8 where b: "buf = [b0, b1, b2, b3, b4, b5, b6, b7, b8]"
    using length9 assms unfolding UDP_PACKET_SIZE_def by blast
  show ?thesis
    by (cases "sup_gateway_IP s"; cases "localIP w")
       (simp add: fillBuffer_def b IP_idx octets_IPAddress, simp add: IP_len_def)
qed

lemma loop_tx_fires:
  assumes "fires inp s" and "length (txBuffer s) = UDP_PACKET_SIZE"
  shows "snd (loop_tx w inp s) =
     [UdpSend (sup_gateway_IP s) UDP_PORT (octets (sup_gateway_IP s) @ octets (localIP w) @ [65])]"
    and "txBuffer (fst (loop_tx w inp s)) = octets (sup_gateway_IP s) @ octets (localIP w) @ [65]"
proof -
  have f: "fillBuffer w (s\<lparr>previousMillis := millis2 inp, msg_sent_cnt := msg_sent_cnt s + 1\<rparr>)
      (txBuffer s) = octets (sup_gateway_IP s) @ octets (localIP w) @ [65]"
    using fillBuffer_9 [OF assms(2), of w
        "s\<lparr>previousMillis := millis2 inp, msg_sent_cnt := msg_sent_cnt s + 1\<rparr>"]
    by simp
  show "snd (loop_tx w inp s) =
     [UdpSend (sup_gateway_IP s) UDP_PORT (octets (sup_gateway_IP s) @ octets (localIP w) @ [65])]"
    using assms(1) by (simp add: loop_tx_def Let_def f octets_def IP_idx UDP_PACKET_SIZE_def)
  show "txBuffer (fst (loop_tx w inp s)) = octets (sup_gateway_IP s) @ octets (localIP w) @ [65]"
    using assms(1) by (simp add: loop_tx_def Let_def f)
qed

subsection \<open>Sessions\<close>

lemma session_passes:
  assumes "0 \<le> msg_sent_cnt s" and "msg_sent_cnt s < MSG_SENT_MAX"
    and "k < length (session w ins s)"
  shows "case session w ins s ! k of
     (fired, st, s', ev) \<Rightarrow>
        msg_sent_cnt s' = msg_sent_cnt s + int (firings (take (Suc k) (session w ins s)))
      \<and> (st = Sleeping \<longleftrightarrow>
           fired \<and> msg_sent_cnt s + int (firings (take (Suc k) (session w ins s))) = MSG_SENT_MAX)
      \<and> (DeepSleep \<in> set ev \<longleftrightarrow> st = Sleeping)"
  using assms
proof (induction ins arbitrary: s k)
  case Nil
  then show ?case by simp
next
  case (Cons inp rest)
  obtain st s1 ev where l: "loop w inp s = (st, s1, ev)"
    by (cases "loop w inp s")
  note c = loop_counter [OF l]
  show ?case
  proof (cases k)
    case 0
    show ?thesis
      using c Cons.prems(1,2) by (simp add: l 0 firings_def)
  next
    case (Suc j)
    with Cons.prems(3) have act: "st = Active"
      by (cases st) (simp_all add: l)
    then have lt: "msg_sent_cnt s1 < MSG_SENT_MAX" "0 \<le> msg_sent_cnt s1"
      using c Cons.prems(1,2) by (auto split: if_splits)
    have j: "j < length (session w rest s1)"
      using Cons.prems(3) by (simp add: l act Suc)
    have f: "int (firings (take (Suc k) (session w (inp # rest) s)))
        = (if fires inp s then 1 else 0) + int (firings (take (Suc j) (session w rest s1)))"
      by (simp add: l act Suc firings_def)
    from Cons.IH [OF lt(2) lt(1) j] show ?thesis
      unfolding f by (simp add: l act Suc c(1) split: prod.splits) (auto split: if_splits)
  qed
qed

lemma loop_node_ok:
  assumes "node_ok s"
  shows "node_ok (fst (snd (loop w inp s)))"
proof -
  let ?r = "fst (loop_rx w (inbound inp) s)"
  let ?t = "fst (loop_tx w inp ?r)"
  have st: "fst (snd (loop w inp s)) = ?t"
    by (simp add: loop_parts)
  have rx: "rxBuffer ?t = rxBuffer ?r" "rxMsg ?t = rxMsg ?r"
    "sub_network_IP ?t = sub_network_IP ?r" "sub_broadcast_IP ?t = sub_broadcast_IP ?r"
    by (subst loop_tx_frame, simp)+
  have id: "sub_network_IP ?r = sub_network_IP s" "sub_broadcast_IP ?r = sub_broadcast_IP s"
    by (subst loop_rx_frame, simp)+
  have l: "length (rxBuffer s) = UDP_PACKET_SIZE" using assms by (simp add: node_ok_def)
  show ?thesis
    unfolding st node_ok_def rx id loop_tx_sizes loop_rx_keeps loop_rx_sizes [OF l]
    using assms by (simp add: node_ok_def)
qed

lemma session_node_ok:
  "node_ok s \<Longrightarrow> p \<in> set (session w ins s) \<Longrightarrow> node_ok (fst (snd (snd p)))"
proof (induction ins arbitrary: s)
  case Nil
  then show ?case by simp
next
  case (Cons inp rest)
  obtain st s1 ev where l: "loop w inp s = (st, s1, ev)"
    by (cases "loop w inp s")
  have ok1: "node_ok s1"
    using loop_node_ok [OF Cons.prems(1), of w inp] by (simp add: l)
  from Cons.prems(2) consider "p = (fires inp s, st, s1, ev)" | "st = Active" "p \<in> set (session w rest s1)"
    by (cases st) (auto simp: l)
  then show ?case
  proof cases
    case 1
    then show ?thesis using ok1 by simp
  next
    case 2
    then show ?thesis using Cons.IH [OF ok1] by simp
  qed
qed

subsection \<open>The concrete node\<close>

lemma ex_node_ok: "node_ok ex_node"
  by (simp add: node_ok_def ex_node_def node0_def consts_defs)

lemma pkt_lengths:
  "length (data pkt_child) = UDP_PACKET_SIZE" "length (data pkt_local) = UDP_PACKET_SIZE"
  "length (data pkt_own) = UDP_PACKET_SIZE" "length (data pkt_down) = UDP_PACKET_SIZE"
  "length (data pkt_other) = UDP_PACKET_SIZE"
  by (simp_all add: pkt_child_def pkt_local_def pkt_own_def pkt_down_def pkt_other_def
        UDP_PACKET_SIZE_def)

lemma ex_fire: "fires in_fire ex_node"
  by (simp add: fires_def in_fire_def ex_node_def node0_def tx_period_def)

lemma ex_tx_len: "length (txBuffer ex_node) = UDP_PACKET_SIZE"
  by (simp add: ex_node_def node0_def)

lemma session_ex:
  "map fst (session ex_wifi ex_ins ex_node) = [True, False, True, True, True, True]"
  "map (fst \<circ> snd) (session ex_wifi ex_ins ex_node) =
     [Active, Active, Active, Active, Active, Sleeping]"
  by (simp_all add: ex_ins_def tick_def loop_def loop_rx_def loop_tx_def loop_sleep_def
        fires_def Let_def ex_node_def node0_def consts_defs)

section \<open>Discovery and link formation\<close>

text \<open>
  C4. If the scan shows the base station, it is chosen whatever the strengths. Otherwise
  the choice is the relay entry that is at least as strong as every relay entry and
  strictly stronger than every relay entry of a higher index (the loop runs down the
  indices and replaces the winner only on a strictly greater strength, so an entry of
  equal strength met later never replaces it): such an entry is chosen whenever the scan
  has a relay entry. With no entry of either name nothing is chosen.
\<close>

theorem discovery_selection:
  "(root_visible w \<longrightarrow> discovery w = ConnectAsRootClient)
   \<and> (\<not> root_visible w \<longrightarrow> (\<forall>k. discovery w = ConnectViaRelay k \<longleftrightarrow> best_relay w k))
   \<and> (\<not> root_visible w \<and> (\<exists>j<length (scan w). fst (scan w ! j) = MOTE2BS_SSID)
        \<longrightarrow> (\<exists>k. discovery w = ConnectViaRelay k))
   \<and> ((\<forall>j<length (scan w). fst (scan w ! j) \<noteq> BS_SSID \<and> fst (scan w ! j) \<noteq> MOTE2BS_SSID)
        \<longrightarrow> discovery w = NoUplinkFound)"
proof (intro conjI impI allI)
  assume "root_visible w"
  then show "discovery w = ConnectAsRootClient" by (simp add: discovery_root)
next
  fix k assume "\<not> root_visible w"
  then show "discovery w = ConnectViaRelay k \<longleftrightarrow> best_relay w k" by (rule discovery_relay)
next
  assume a: "\<not> root_visible w \<and> (\<exists>j<length (scan w). fst (scan w ! j) = MOTE2BS_SSID)"
  then have "discovery w \<noteq> NoUplinkFound" "discovery w \<noteq> ConnectAsRootClient"
    by (auto simp: discovery_none discovery_root)
  then show "\<exists>k. discovery w = ConnectViaRelay k"
    by (cases "discovery w") auto
next
  assume "\<forall>j<length (scan w). fst (scan w ! j) \<noteq> BS_SSID \<and> fst (scan w ! j) \<noteq> MOTE2BS_SSID"
  then show "discovery w = NoUplinkFound" by (simp add: discovery_none root_visible_def)
qed

text \<open>The theorem on a scan whose two strongest relays tie at indices 2 and 3: index 3, met
  first, is kept. On the scan of the concrete node the base station is chosen, and on a
  scan of two foreign networks nothing is.\<close>

theorem discovery_selection_witness:
  "\<not> root_visible relay_wifi \<and> discovery relay_wifi = ConnectViaRelay 3
   \<and> best_relay relay_wifi 3 \<and> \<not> best_relay relay_wifi 2
   \<and> root_visible ex_wifi \<and> discovery ex_wifi = ConnectAsRootClient
   \<and> map fst (scan quiet_wifi) = [''MOTE_ESP8266'', ''cafe'']
   \<and> discovery quiet_wifi = NoUplinkFound"
proof -
  have d: "discovery relay_wifi = ConnectViaRelay 3"
    by (simp add: discovery_def relay_wifi_def SSID_def RSSI_def BS_SSID_def MOTE2BS_SSID_def)
  have n: "\<not> root_visible relay_wifi"
    using d discovery_root [of relay_wifi] by simp
  have r: "root_visible ex_wifi"
    by (simp add: root_visible_def ex_wifi_def BS_SSID_def)
  have e: "discovery relay_wifi = ConnectViaRelay k \<longleftrightarrow> best_relay relay_wifi k" for k
    using discovery_selection [of relay_wifi] n by blast
  have x: "discovery ex_wifi = ConnectAsRootClient"
    using discovery_selection [of ex_wifi] r by blast
  have q: "\<forall>j<length (scan quiet_wifi).
      fst (scan quiet_wifi ! j) \<noteq> BS_SSID \<and> fst (scan quiet_wifi ! j) \<noteq> MOTE2BS_SSID"
    by (auto simp: quiet_wifi_def BS_SSID_def MOTE2BS_SSID_def less_Suc_eq)
  have y: "discovery quiet_wifi = NoUplinkFound"
    using discovery_selection [of quiet_wifi] q by blast
  show ?thesis
    using e [of 3] e [of 2] d n r x y by (simp add: quiet_wifi_def)
qed

text \<open>
  C5. When \<open>setup\<close> comes back with a link, the upstream neighbour is the gateway of
  the uplink, the node's own address is the uplink-assigned address with its fourth octet
  added into the third modulo 256 and the fourth set to 1, and the gateway of the
  downstream subnet is that address; once the access point reports the address it was
  configured with, the downstream network has the prefix of the node's own address.
\<close>

theorem link_formation:
  assumes "setup_node w = Some (Active, s, ev)" and "localIP w = IPAddress a b c d"
  shows "sup_gateway_IP s = gatewayIP w
       \<and> own_IP s = IPAddress a b (c + d) 1
       \<and> unat (c + d) = (unat c + unat d) mod 256
       \<and> sub_gateway_IP s = own_IP s
       \<and> (softAPIP w = own_IP s \<longrightarrow> prefix_of (sub_network_IP s) = prefix_of (own_IP s))"
proof -
  obtain toBS idx s1 ev1 where
    c: "createLink w toBS idx (node0\<lparr>connectToBS := toBS\<rparr>) = Some (s1, ev1)"
    and s: "s = fst (openAP w s1)"
    using setup_node_Active [OF assms(1)] by blast
  have u: "unat (c + d) = (unat c + unat d) mod 256"
    by (simp add: unat_word_ariths)
  show ?thesis
    unfolding s openAP_state createLink_Some(1) [OF c]
    by (simp add: assms(2) derive_own_IP_octets u node0_def and_255)
qed

text \<open>The theorem at the concrete node: 192.168.4.2 gives 192.168.6.1 and the subnet
  192.168.6.0/24.\<close>

theorem link_formation_witness:
  "setup_node ex_wifi = Some (Active, ex_node,
     [WifiDisconnect, WifiBegin BS_SSID BS_PASS,
      SoftAPConfig (IPAddress 192 168 6 1) (IPAddress 192 168 6 1) (IPAddress 255 255 255 0),
      SoftAP ''MOTE2BS_ESP8266'' ''MOTE2BS_ESP8266'', UdpBegin UDP_PORT])
   \<and> localIP ex_wifi = IPAddress 192 168 4 2
   \<and> softAPIP ex_wifi = own_IP ex_node
   \<and> sup_gateway_IP ex_node = IPAddress 192 168 4 1
   \<and> own_IP ex_node = IPAddress 192 168 6 1
   \<and> prefix_of (sub_network_IP ex_node) = prefix_of (own_IP ex_node)"
proof -
  have l: "localIP ex_wifi = IPAddress 192 168 4 2" by (simp add: ex_wifi_def)
  have a: "softAPIP ex_wifi = own_IP ex_node" by (simp add: ex_wifi_def ex_node_def)
  show ?thesis
    using link_formation [OF setup_ex l] setup_ex l a
    by (simp add: ex_wifi_def)
qed

text \<open>
  C6. When discovery finds nothing, and so whenever the scan has no entry with the name of
  the base station or of a relay, \<open>setup\<close> asks for deep sleep and nothing else: the
  session is over with the globals untouched and no call of \<open>WiFi.begin\<close>.
\<close>

theorem no_uplink_sleeps:
  "(discovery w = NoUplinkFound \<longrightarrow> setup_node w = Some (Sleeping, node0, [DeepSleep]))
   \<and> ((\<forall>i<length (scan w). fst (scan w ! i) \<noteq> BS_SSID \<and> fst (scan w ! i) \<noteq> MOTE2BS_SSID)
        \<longrightarrow> discovery w = NoUplinkFound)"
proof (intro conjI impI)
  assume "discovery w = NoUplinkFound"
  then show "setup_node w = Some (Sleeping, node0, [DeepSleep])"
    by (simp add: setup_node_def)
next
  assume "\<forall>i<length (scan w). fst (scan w ! i) \<noteq> BS_SSID \<and> fst (scan w ! i) \<noteq> MOTE2BS_SSID"
  then show "discovery w = NoUplinkFound"
    by (simp add: discovery_none root_visible_def)
qed

text \<open>The theorem on a scan of two foreign networks.\<close>

theorem no_uplink_sleeps_witness:
  "map fst (scan quiet_wifi) = [''MOTE_ESP8266'', ''cafe'']
   \<and> discovery quiet_wifi = NoUplinkFound
   \<and> setup_node quiet_wifi = Some (Sleeping, node0, [DeepSleep])"
proof -
  have "\<forall>i<length (scan quiet_wifi).
       fst (scan quiet_wifi ! i) \<noteq> BS_SSID \<and> fst (scan quiet_wifi ! i) \<noteq> MOTE2BS_SSID"
    by (auto simp: quiet_wifi_def BS_SSID_def MOTE2BS_SSID_def less_Suc_eq)
  then have "discovery quiet_wifi = NoUplinkFound
      \<and> setup_node quiet_wifi = Some (Sleeping, node0, [DeepSleep])"
    using no_uplink_sleeps [of quiet_wifi] by blast
  then show ?thesis by (simp add: quiet_wifi_def)
qed

section \<open>The forwarding engine\<close>

text \<open>
  C1, as the code has it. For a 9-byte datagram and a node state of a session, the four
  cases are taken in the order a, b, c, d, where case b compares the embedded destination
  with the address the uplink assigned to the node (\<open>WiFi.localIP()\<close>), not with the
  address derived in \<open>createLink\<close>. In case b the pass calls \<open>actionUponRx\<close> and sends
  nothing; in every other case it sends exactly one packet and does nothing else.
\<close>

theorem forwarding_cases:
  assumes "node_ok s" and "length (data p) = UDP_PACKET_SIZE"
  shows "(spec_classify (localIP w) (sub_network_IP s) p = CaseB
            \<longrightarrow> snd (loop_rx w (Some p) s) = [ActionUponRx]
               \<and> length (outbound (snd (loop_rx w (Some p) s))) = 0)
       \<and> (spec_classify (localIP w) (sub_network_IP s) p \<noteq> CaseB
            \<longrightarrow> length (snd (loop_rx w (Some p) s)) = 1
               \<and> length (outbound (snd (loop_rx w (Some p) s))) = 1)"
  by (simp add: loop_rx_9 [OF assms] spec_classify_def outbound_def)

text \<open>The theorem at the concrete node: a datagram for 192.168.4.2 is case b, one for
  172.16.0.4 is case d.\<close>

theorem forwarding_cases_witness:
  "node_ok ex_node \<and> length (data pkt_local) = UDP_PACKET_SIZE
   \<and> spec_classify (localIP ex_wifi) (sub_network_IP ex_node) pkt_local = CaseB
   \<and> snd (loop_rx ex_wifi (Some pkt_local) ex_node) = [ActionUponRx]
   \<and> spec_classify (localIP ex_wifi) (sub_network_IP ex_node) pkt_other = CaseD
   \<and> length (outbound (snd (loop_rx ex_wifi (Some pkt_other) ex_node))) = 1"
proof -
  have b: "spec_classify (localIP ex_wifi) (sub_network_IP ex_node) pkt_local = CaseB"
    by (simp add: spec_classify_def ex_wifi_def ex_node_def pkt_local_def embedded_dst_def)
  have d: "spec_classify (localIP ex_wifi) (sub_network_IP ex_node) pkt_other = CaseD"
    by (simp add: spec_classify_def ex_wifi_def ex_node_def pkt_other_def embedded_dst_def)
  show ?thesis
    using forwarding_cases [OF ex_node_ok pkt_lengths(2), of ex_wifi]
      forwarding_cases [OF ex_node_ok pkt_lengths(5), of ex_wifi] b d ex_node_ok pkt_lengths
    by simp
qed

text \<open>
  C1 as it is written, with case b tested against the derived address 192.168.6.1: a
  datagram from 192.168.4.1 for 192.168.4.2 is then case d, which promises one outbound
  packet. The code sends none.
\<close>

theorem own_address_case_counterexample:
  "spec_classify (own_IP ex_node) (sub_network_IP ex_node) pkt_local = CaseD
   \<and> outbound (snd (loop_rx ex_wifi (Some pkt_local) ex_node)) = []"
proof -
  have "spec_classify (own_IP ex_node) (sub_network_IP ex_node) pkt_local = CaseD"
    by (simp add: spec_classify_def ex_node_def pkt_local_def embedded_dst_def)
  moreover have "snd (loop_rx ex_wifi (Some pkt_local) ex_node) = [ActionUponRx]"
    by (simp add: loop_rx_9 [OF ex_node_ok pkt_lengths(2)])
       (simp add: ex_wifi_def ex_node_def pkt_local_def embedded_dst_def)
  ultimately show ?thesis by (simp add: outbound_def)
qed

text \<open>
  C2, as the code has it. A 9-byte datagram whose transport sender is outside the
  downstream subnet and whose embedded destination is the address the uplink assigned to
  the node (\<open>WiFi.localIP()\<close>) is handed to \<open>actionUponRx\<close>, and nothing is sent.
\<close>

theorem local_delivery:
  assumes "node_ok s" and "length (data p) = UDP_PACKET_SIZE"
    and "prefix_of (remoteIP p) \<noteq> prefix_of (sub_network_IP s)"
    and "embedded_dst (data p) = localIP w"
  shows "snd (loop_rx w (Some p) s) = [ActionUponRx]
       \<and> outbound (snd (loop_rx w (Some p) s)) = []"
  using assms(3,4) by (simp add: loop_rx_9 [OF assms(1,2)] outbound_def)

text \<open>The theorem at the concrete node, for a datagram from 192.168.4.1 to 192.168.4.2.\<close>

theorem local_delivery_witness:
  "node_ok ex_node \<and> length (data pkt_local) = UDP_PACKET_SIZE
   \<and> prefix_of (remoteIP pkt_local) \<noteq> prefix_of (sub_network_IP ex_node)
   \<and> embedded_dst (data pkt_local) = localIP ex_wifi
   \<and> snd (loop_rx ex_wifi (Some pkt_local) ex_node) = [ActionUponRx]
   \<and> outbound (snd (loop_rx ex_wifi (Some pkt_local) ex_node)) = []"
proof -
  have a: "prefix_of (remoteIP pkt_local) \<noteq> prefix_of (sub_network_IP ex_node)"
    by (simp add: pkt_local_def ex_node_def)
  have b: "embedded_dst (data pkt_local) = localIP ex_wifi"
    by (simp add: pkt_local_def ex_wifi_def embedded_dst_def)
  show ?thesis
    using local_delivery [OF ex_node_ok pkt_lengths(2) a b] a b ex_node_ok pkt_lengths(2)
    by (simp add: outbound_def)
qed

text \<open>
  C2 as it is written: the node owns 192.168.6.0/24 and derived 192.168.6.1 for itself. A
  datagram from 192.168.4.1 whose embedded destination is 192.168.6.1 is not delivered
  locally: it is case c, sent on to 192.168.6.1.
\<close>

theorem derived_address_not_local_counterexample:
  "prefix_of (remoteIP pkt_own) \<noteq> prefix_of (sub_network_IP ex_node)
   \<and> embedded_dst (data pkt_own) = own_IP ex_node
   \<and> snd (loop_rx ex_wifi (Some pkt_own) ex_node)
       = [UdpSend (IPAddress 192 168 6 1) 4210 [192, 168, 6, 1, 192, 168, 4, 1, 66]]"
  by (simp add: loop_rx_9 [OF ex_node_ok pkt_lengths(3)])
     (simp add: ex_wifi_def ex_node_def pkt_own_def embedded_dst_def)

text \<open>
  C3, as the code has it. For a 9-byte datagram that the pass takes as case a, c or d,
  where case b is the test of the embedded destination against the address the uplink
  assigned to the node (\<open>WiFi.localIP()\<close>), the one packet sent carries the received
  bytes unchanged to the port of the transport sender: in case a to the upstream gateway,
  in case c to the embedded destination, in case d to the broadcast address, which is the
  downstream prefix with host octet 255.
\<close>

theorem forwarding_targets:
  assumes "node_ok s" and "length (data p) = UDP_PACKET_SIZE"
  shows "(spec_classify (localIP w) (sub_network_IP s) p = CaseA
            \<longrightarrow> snd (loop_rx w (Some p) s)
                  = [UdpSend (sup_gateway_IP s) (remotePort p) (data p)])
       \<and> (spec_classify (localIP w) (sub_network_IP s) p = CaseC
            \<longrightarrow> snd (loop_rx w (Some p) s)
                  = [UdpSend (embedded_dst (data p)) (remotePort p) (data p)])
       \<and> (spec_classify (localIP w) (sub_network_IP s) p = CaseD
            \<longrightarrow> snd (loop_rx w (Some p) s)
                  = [UdpSend (sub_broadcast_IP s) (remotePort p) (data p)]
               \<and> prefix_of (sub_broadcast_IP s) = prefix_of (sub_network_IP s)
               \<and> ip_get (sub_broadcast_IP s) 3 = 255)"
proof -
  have "sub_broadcast_IP s = ip_set (sub_network_IP s) 3 255"
    using assms(1) by (simp add: node_ok_def IP_last)
  then have "prefix_of (sub_broadcast_IP s) = prefix_of (sub_network_IP s)
      \<and> ip_get (sub_broadcast_IP s) 3 = 255"
    by (cases "sub_network_IP s") simp
  then show ?thesis
    by (simp add: loop_rx_9 [OF assms] spec_classify_def)
qed

text \<open>The theorem at the concrete node: scenarios 1, 3 and 4 of the specification, on
  the subnet 192.168.6.0/24.\<close>

theorem forwarding_targets_witness:
  "node_ok ex_node \<and> length (data pkt_child) = UDP_PACKET_SIZE
   \<and> spec_classify (localIP ex_wifi) (sub_network_IP ex_node) pkt_child = CaseA
   \<and> snd (loop_rx ex_wifi (Some pkt_child) ex_node)
       = [UdpSend (IPAddress 192 168 4 1) 4210 [10, 0, 0, 9, 192, 168, 6, 7, 65]]
   \<and> spec_classify (localIP ex_wifi) (sub_network_IP ex_node) pkt_down = CaseC
   \<and> snd (loop_rx ex_wifi (Some pkt_down) ex_node)
       = [UdpSend (IPAddress 192 168 6 9) 4210 [192, 168, 6, 9, 192, 168, 4, 1, 66]]
   \<and> spec_classify (localIP ex_wifi) (sub_network_IP ex_node) pkt_other = CaseD
   \<and> snd (loop_rx ex_wifi (Some pkt_other) ex_node)
       = [UdpSend (IPAddress 192 168 6 255) 4210 [172, 16, 0, 4, 192, 168, 4, 1, 66]]"
proof -
  have a: "spec_classify (localIP ex_wifi) (sub_network_IP ex_node) pkt_child = CaseA"
    by (simp add: spec_classify_def ex_wifi_def ex_node_def pkt_child_def embedded_dst_def)
  have c: "spec_classify (localIP ex_wifi) (sub_network_IP ex_node) pkt_down = CaseC"
    by (simp add: spec_classify_def ex_wifi_def ex_node_def pkt_down_def embedded_dst_def)
  have d: "spec_classify (localIP ex_wifi) (sub_network_IP ex_node) pkt_other = CaseD"
    by (simp add: spec_classify_def ex_wifi_def ex_node_def pkt_other_def embedded_dst_def)
  have va: "sup_gateway_IP ex_node = IPAddress 192 168 4 1" "remotePort pkt_child = 4210"
      "data pkt_child = [10, 0, 0, 9, 192, 168, 6, 7, 65]"
    by (simp_all add: ex_node_def pkt_child_def)
  have vc: "embedded_dst (data pkt_down) = IPAddress 192 168 6 9" "remotePort pkt_down = 4210"
      "data pkt_down = [192, 168, 6, 9, 192, 168, 4, 1, 66]"
    by (simp_all add: pkt_down_def embedded_dst_def)
  have vd: "sub_broadcast_IP ex_node = IPAddress 192 168 6 255" "remotePort pkt_other = 4210"
      "data pkt_other = [172, 16, 0, 4, 192, 168, 4, 1, 66]"
    by (simp_all add: ex_node_def pkt_other_def)
  show ?thesis
    using forwarding_targets [OF ex_node_ok pkt_lengths(1), of ex_wifi]
      forwarding_targets [OF ex_node_ok pkt_lengths(4), of ex_wifi]
      forwarding_targets [OF ex_node_ok pkt_lengths(5), of ex_wifi]
      a c d ex_node_ok pkt_lengths
    by (simp add: va vc vd embedded_dst_def)
qed

text \<open>
  C3 as it is written. With case b tested against the derived address 192.168.6.1, a
  datagram from 192.168.4.1 for 192.168.4.2 is case d, to be broadcast: the code hands
  it to \<open>actionUponRx\<close> and sends nothing. And a datagram of 12 bytes for the child
  192.168.6.9 is case c: the code sends on its first 9 bytes only, since \<open>UDP.read\<close>
  fills a buffer of \<open>UDP_PACKET_SIZE\<close> bytes.
\<close>

theorem forwarding_targets_counterexample:
  "spec_classify (own_IP ex_node) (sub_network_IP ex_node) pkt_local = CaseD
   \<and> snd (loop_rx ex_wifi (Some pkt_local) ex_node) = [ActionUponRx]
   \<and> spec_classify (own_IP ex_node) (sub_network_IP ex_node) pkt_long = CaseC
   \<and> data pkt_long = [192, 168, 6, 9, 192, 168, 4, 1, 66, 67, 68, 69]
   \<and> snd (loop_rx ex_wifi (Some pkt_long) ex_node)
       = [UdpSend (IPAddress 192 168 6 9) 4210 [192, 168, 6, 9, 192, 168, 4, 1, 66]]"
proof -
  have d: "spec_classify (own_IP ex_node) (sub_network_IP ex_node) pkt_local = CaseD"
    by (simp add: spec_classify_def ex_node_def pkt_local_def embedded_dst_def)
  have l: "snd (loop_rx ex_wifi (Some pkt_local) ex_node) = [ActionUponRx]"
    by (simp add: loop_rx_9 [OF ex_node_ok pkt_lengths(2)])
       (simp add: ex_wifi_def ex_node_def pkt_local_def embedded_dst_def)
  have c: "spec_classify (own_IP ex_node) (sub_network_IP ex_node) pkt_long = CaseC"
    by (simp add: spec_classify_def ex_node_def pkt_long_def embedded_dst_def)
  have rd: "UDP_read (rxBuffer ex_node) (data pkt_long) UDP_PACKET_SIZE
      = ([192, 168, 6, 9, 192, 168, 4, 1, 66], 9)"
    by (simp add: UDP_read_def pkt_long_def ex_node_def node0_def UDP_PACKET_SIZE_def)
  have pl: "length (payload (rxMsg ex_node)) = UDP_PACKET_SIZE - 2 * IP_len"
    using ex_node_ok by (simp add: node_ok_def)
  have f: "snd (loop_rx ex_wifi (Some pkt_long) ex_node)
       = [UdpSend (IPAddress 192 168 6 9) 4210 [192, 168, 6, 9, 192, 168, 4, 1, 66]]"
    by (simp add: loop_rx_def rd parseMsg9 [OF pl] Let_def IP_last)
       (simp add: pkt_long_def ex_wifi_def ex_node_def)
  show ?thesis
    using d l c f by (simp add: pkt_long_def)
qed

section \<open>The packet codec\<close>

text \<open>
  C9. \<open>parseMsg\<close> on a 9-byte buffer puts bytes 0..3 into the destination address, bytes
  4..7 into the source address and byte 8 into the payload, and encoding the parsed
  message gives the buffer back.
\<close>

theorem parse_encode_roundtrip:
  assumes "length bytes = UDP_PACKET_SIZE"
    and "length (payload m) = UDP_PACKET_SIZE - 2 * IP_len"
  shows "dstIP (parseMsg bytes m) = IPAddress (bytes ! 0) (bytes ! 1) (bytes ! 2) (bytes ! 3)
       \<and> srcIP (parseMsg bytes m) = IPAddress (bytes ! 4) (bytes ! 5) (bytes ! 6) (bytes ! 7)
       \<and> payload (parseMsg bytes m) = drop (2 * IP_len) bytes
       \<and> encode (parseMsg bytes m) = bytes"
proof -
  obtain b0 b1 b2 b3 b4 b5 b6 b7 b8 where b: "bytes = [b0, b1, b2, b3, b4, b5, b6, b7, b8]"
    using length9 assms(1) unfolding UDP_PACKET_SIZE_def by blast
  show ?thesis
    unfolding b parseMsg9 [OF assms(2)]
    by (simp add: encode_def octets_IPAddress IP_len_def)
qed

text \<open>The theorem on the datagram of a child and the message record of a fresh session.\<close>

theorem parse_encode_roundtrip_witness:
  "length (data pkt_child) = UDP_PACKET_SIZE
   \<and> length (payload (rxMsg node0)) = UDP_PACKET_SIZE - 2 * IP_len
   \<and> dstIP (parseMsg (data pkt_child) (rxMsg node0)) = IPAddress 10 0 0 9
   \<and> srcIP (parseMsg (data pkt_child) (rxMsg node0)) = IPAddress 192 168 6 7
   \<and> payload (parseMsg (data pkt_child) (rxMsg node0)) = [65]
   \<and> encode (parseMsg (data pkt_child) (rxMsg node0)) = [10, 0, 0, 9, 192, 168, 6, 7, 65]"
proof -
  have l: "length (payload (rxMsg node0)) = UDP_PACKET_SIZE - 2 * IP_len"
    by (simp add: node0_def)
  show ?thesis
    using parse_encode_roundtrip [OF pkt_lengths(1) l] pkt_lengths(1) l
    by (simp add: pkt_child_def IP_len_def)
qed

section \<open>Telemetry and the session lifecycle\<close>

text \<open>
  C7. A pass adds one to the send counter when its timer fires and nothing otherwise. In
  a session that starts with the counter at 0, the counter after each pass is the number
  of firings so far, and a pass ends the session exactly when it fires and is the fifth
  firing; the deep sleep is requested in that same pass and in no other.
\<close>

theorem send_counter_and_sleep:
  assumes "msg_sent_cnt s = 0" and "k < length (session w ins s)"
  shows "msg_sent_cnt (fst (snd (loop w inp t))) = msg_sent_cnt t + (if fires inp t then 1 else 0)
       \<and> (case session w ins s ! k of
            (fired, st, s', ev) \<Rightarrow>
               msg_sent_cnt s' = int (firings (take (Suc k) (session w ins s)))
             \<and> (st = Sleeping \<longleftrightarrow>
                  fired \<and> int (firings (take (Suc k) (session w ins s))) = MSG_SENT_MAX)
             \<and> (DeepSleep \<in> set ev \<longleftrightarrow> st = Sleeping))"
proof
  obtain st t' ev where l: "loop w inp t = (st, t', ev)"
    by (cases "loop w inp t")
  show "msg_sent_cnt (fst (snd (loop w inp t))) = msg_sent_cnt t + (if fires inp t then 1 else 0)"
    using loop_counter(1) [OF l] by (simp add: l)
next
  have "0 \<le> msg_sent_cnt s" "msg_sent_cnt s < MSG_SENT_MAX"
    using assms(1) by (simp_all add: MSG_SENT_MAX_def)
  from session_passes [OF this assms(2)]
  show "case session w ins s ! k of
            (fired, st, s', ev) \<Rightarrow>
               msg_sent_cnt s' = int (firings (take (Suc k) (session w ins s)))
             \<and> (st = Sleeping \<longleftrightarrow>
                  fired \<and> int (firings (take (Suc k) (session w ins s))) = MSG_SENT_MAX)
             \<and> (DeepSleep \<in> set ev \<longleftrightarrow> st = Sleeping)"
    by (simp add: assms(1))
qed

text \<open>The theorem on a session of seven inputs from the concrete node: the timer fires
  on passes 0, 2, 3, 4 and 5, the sixth pass is the fifth firing and the last.\<close>

theorem send_counter_and_sleep_witness:
  "msg_sent_cnt ex_node = 0 \<and> 5 < length (session ex_wifi ex_ins ex_node)
   \<and> map fst (session ex_wifi ex_ins ex_node) = [True, False, True, True, True, True]
   \<and> map (fst \<circ> snd) (session ex_wifi ex_ins ex_node) =
      [Active, Active, Active, Active, Active, Sleeping]
   \<and> (case session ex_wifi ex_ins ex_node ! 5 of
        (fired, st, s', ev) \<Rightarrow>
          msg_sent_cnt s' = 5 \<and> fired \<and> st = Sleeping \<and> DeepSleep \<in> set ev)"
proof -
  have z: "msg_sent_cnt ex_node = 0" by (simp add: ex_node_def node0_def)
  have n: "length (session ex_wifi ex_ins ex_node) = 6"
    using arg_cong [OF session_ex(1), of length] by simp
  then have k: "5 < length (session ex_wifi ex_ins ex_node)" by simp
  have st: "fst (snd (session ex_wifi ex_ins ex_node ! 5)) = Sleeping"
    using arg_cong [OF session_ex(2), of "\<lambda>xs. xs ! 5"] k by simp
  have fr: "fst (session ex_wifi ex_ins ex_node ! 5)"
    using arg_cong [OF session_ex(1), of "\<lambda>xs. xs ! 5"] k by simp
  show ?thesis
    using send_counter_and_sleep [OF z k, of "tick 0" ex_node] z k st fr session_ex
    by (auto simp: MSG_SENT_MAX_def split: prod.splits)
qed

text \<open>
  C8, as the code has it. A pass whose timer fires sends one packet to the upstream
  gateway on the fixed port: its destination field is the upstream gateway, its source
  field is the address the uplink assigned to the node (\<open>WiFi.localIP()\<close>), not the
  address derived in \<open>createLink\<close>, and its payload is the one byte 65. The pass adds
  one to the send counter.
\<close>

theorem telemetry_packet:
  assumes "fires inp s" and "length (txBuffer s) = UDP_PACKET_SIZE"
  shows "snd (snd (loop w inp s)) =
           snd (loop_rx w (inbound inp) s)
           @ [UdpSend (sup_gateway_IP s) UDP_PORT
                (octets (sup_gateway_IP s) @ octets (localIP w) @ [65])]
           @ snd (loop_sleep (fst (snd (loop w inp s))))
       \<and> msg_sent_cnt (fst (snd (loop w inp s))) = msg_sent_cnt s + 1"
proof -
  let ?r = "fst (loop_rx w (inbound inp) s)"
  have a: "fires inp ?r" using assms(1) by (simp add: fires_after_rx)
  have b: "length (txBuffer ?r) = UDP_PACKET_SIZE" using assms(2) by (simp add: loop_rx_keeps)
  show ?thesis
    using assms(1)
    by (simp add: loop_parts loop_tx_fires(1) [OF a b] loop_rx_keeps loop_tx_cnt fires_after_rx)
qed

text \<open>The theorem at the concrete node.\<close>

theorem telemetry_packet_witness:
  "fires in_fire ex_node \<and> length (txBuffer ex_node) = UDP_PACKET_SIZE
   \<and> snd (snd (loop ex_wifi in_fire ex_node)) =
       [UdpSend (IPAddress 192 168 4 1) UDP_PORT [192, 168, 4, 1, 192, 168, 4, 2, 65]]
   \<and> msg_sent_cnt (fst (snd (loop ex_wifi in_fire ex_node))) = 1"
proof -
  have c: "msg_sent_cnt (fst (snd (loop ex_wifi in_fire ex_node))) = 1"
    using telemetry_packet [OF ex_fire ex_tx_len, of ex_wifi]
    by (simp add: ex_node_def node0_def)
  have r: "snd (loop_rx ex_wifi (inbound in_fire) ex_node) = []"
    by (simp add: loop_rx_def in_fire_def)
  have v: "sup_gateway_IP ex_node = IPAddress 192 168 4 1" "localIP ex_wifi = IPAddress 192 168 4 2"
    by (simp_all add: ex_node_def ex_wifi_def)
  show ?thesis
    using telemetry_packet [OF ex_fire ex_tx_len, of ex_wifi] c ex_fire ex_tx_len
    by (simp add: r v octets_IPAddress loop_sleep_def MSG_SENT_MAX_def)
qed

text \<open>
  C8 as it is written: the source field of the packet of the concrete node is
  192.168.4.2, and the address it derived for itself is 192.168.6.1.
\<close>

theorem telemetry_source_counterexample:
  "fires in_fire ex_node
   \<and> txBuffer (fst (snd (loop ex_wifi in_fire ex_node))) = [192, 168, 4, 1, 192, 168, 4, 2, 65]
   \<and> octets (own_IP ex_node) = [192, 168, 6, 1]"
proof -
  have "txBuffer (fst (snd (loop ex_wifi in_fire ex_node))) =
      octets (sup_gateway_IP ex_node) @ octets (localIP ex_wifi) @ [65]"
    using loop_tx_fires(2) [OF ex_fire ex_tx_len, of ex_wifi]
    by (simp add: loop_parts) (simp add: loop_rx_def in_fire_def)
  then show ?thesis
    using ex_fire by (simp add: ex_node_def ex_wifi_def octets_IPAddress)
qed

text \<open>
  C10. A pass of \<open>loop\<close> leaves the node's own address, the downstream gateway, network
  and broadcast addresses, the netmask and the upstream gateway and network as they were:
  the state after the pass is the state before it with new values in the receive and
  transmit buffers, the received size, the parsed message, the sender's port, the sender
  and destination networks, the timer and the send counter, and in nothing else.
\<close>

theorem loop_frame:
  "own_IP (fst (snd (loop w inp s))) = own_IP s \<and>
   sub_gateway_IP (fst (snd (loop w inp s))) = sub_gateway_IP s \<and>
   sub_network_IP (fst (snd (loop w inp s))) = sub_network_IP s \<and>
   sub_broadcast_IP (fst (snd (loop w inp s))) = sub_broadcast_IP s \<and>
   subnetmask_IP (fst (snd (loop w inp s))) = subnetmask_IP s \<and>
   sup_gateway_IP (fst (snd (loop w inp s))) = sup_gateway_IP s \<and>
   sup_network_IP (fst (snd (loop w inp s))) = sup_network_IP s \<and>
   fst (snd (loop w inp s)) =
     s\<lparr>rxBuffer := rxBuffer (fst (snd (loop w inp s))),
       rxSize := rxSize (fst (snd (loop w inp s))),
       rxMsg := rxMsg (fst (snd (loop w inp s))),
       remote_PORT := remote_PORT (fst (snd (loop w inp s))),
       sendernet_IP := sendernet_IP (fst (snd (loop w inp s))),
       dstnet_IP := dstnet_IP (fst (snd (loop w inp s))),
       txBuffer := txBuffer (fst (snd (loop w inp s))),
       previousMillis := previousMillis (fst (snd (loop w inp s))),
       msg_sent_cnt := msg_sent_cnt (fst (snd (loop w inp s)))\<rparr>"
proof -
  let ?r = "fst (loop_rx w (inbound inp) s)"
  let ?t = "fst (loop_tx w inp ?r)"
  have r: "?r = s\<lparr>rxBuffer := rxBuffer ?r, rxSize := rxSize ?r, rxMsg := rxMsg ?r,
      remote_PORT := remote_PORT ?r, sendernet_IP := sendernet_IP ?r, dstnet_IP := dstnet_IP ?r\<rparr>"
    by (rule loop_rx_frame)
  have t: "?t = ?r\<lparr>previousMillis := previousMillis ?t, msg_sent_cnt := msg_sent_cnt ?t,
      txBuffer := txBuffer ?t\<rparr>"
    by (rule loop_tx_frame)
  have eq: "?t = s\<lparr>rxBuffer := rxBuffer ?t, rxSize := rxSize ?t, rxMsg := rxMsg ?t,
       remote_PORT := remote_PORT ?t, sendernet_IP := sendernet_IP ?t,
       dstnet_IP := dstnet_IP ?t, txBuffer := txBuffer ?t,
       previousMillis := previousMillis ?t, msg_sent_cnt := msg_sent_cnt ?t\<rparr>"
    by (subst t, subst r) (simp add: loop_tx_def Let_def)
  have fields: "own_IP ?t = own_IP s" "sub_gateway_IP ?t = sub_gateway_IP s"
    "sub_network_IP ?t = sub_network_IP s" "sub_broadcast_IP ?t = sub_broadcast_IP s"
    "subnetmask_IP ?t = subnetmask_IP s"
    "sup_gateway_IP ?t = sup_gateway_IP s" "sup_network_IP ?t = sup_network_IP s"
    by (subst eq, simp)+
  have st: "fst (snd (loop w inp s)) = ?t"
    by (simp add: loop_parts)
  show ?thesis
    unfolding st using eq fields by blast
qed

end
